theory Spec2Isabelle
  imports Complex_Main "HOL-Library.Multiset"
begin

section \<open>JavaScript values\<close>

text \<open>
  The values that occur in row records and in the generic configuration keys are
  primitives. A number is an IEEE binary64 value; the model keeps the three special
  values apart and represents a finite value by the rational it denotes. Rounding of
  finite values and the sign of zero are not represented.
\<close>

datatype jsnum = NaN | PosInf | NegInf | Fin rat

datatype jsval = JUndefined | JNull | JBool bool | JNum jsnum | JStr string

text \<open>A plain object: its own enumerable properties in insertion order.\<close>

type_synonym obj = "(string \<times> jsval) list"

definition get_prop :: "(string \<times> 'a) list \<Rightarrow> string \<Rightarrow> 'a option" where
  "get_prop ps k = map_of ps k"

definition put_prop :: "(string \<times> 'a) list \<Rightarrow> string \<Rightarrow> 'a \<Rightarrow> (string \<times> 'a) list" where
  \<comment> \<open>\<open>o[k] = v\<close>: overwrite the property where it stands, or add it at the end.\<close>
  "put_prop ps k v =
     (if k \<in> fst ` set ps then map (\<lambda>(k', v'). if k' = k then (k', v) else (k', v')) ps
      else ps @ [(k, v)])"

definition field :: "obj \<Rightarrow> string \<Rightarrow> jsval" where
  \<comment> \<open>\<open>o[k]\<close>: a missing property reads as \<open>undefined\<close>.\<close>
  "field ob k = (case get_prop ob k of None \<Rightarrow> JUndefined | Some v \<Rightarrow> v)"

subsection \<open>Number(value)\<close>

definition is_ws :: "char \<Rightarrow> bool" where
  "is_ws c = (c = CHR '' '' \<or> c = CHR 0x09 \<or> c = CHR 0x0A \<or> c = CHR 0x0B
              \<or> c = CHR 0x0C \<or> c = CHR 0x0D)"

definition trim :: "string \<Rightarrow> string" where
  "trim s = rev (dropWhile is_ws (rev (dropWhile is_ws s)))"

definition digit_val :: "char \<Rightarrow> nat option" where
  "digit_val c =
     (let n = (of_char c :: nat) in
      if 48 \<le> n \<and> n \<le> 57 then Some (n - 48)
      else if 97 \<le> n \<and> n \<le> 102 then Some (n - 87)
      else if 65 \<le> n \<and> n \<le> 70 then Some (n - 55)
      else None)"

definition is_digit :: "nat \<Rightarrow> char \<Rightarrow> bool" where
  "is_digit radix c = (case digit_val c of None \<Rightarrow> False | Some d \<Rightarrow> d < radix)"

definition digits_val :: "nat \<Rightarrow> string \<Rightarrow> nat" where
  "digits_val radix s = foldl (\<lambda>acc c. radix * acc + (case digit_val c of None \<Rightarrow> 0 | Some d \<Rightarrow> d)) 0 s"

definition radix_literal :: "nat \<Rightarrow> string \<Rightarrow> jsnum" where
  \<comment> \<open>The digits after \<open>0x\<close>, \<open>0o\<close> or \<open>0b\<close>: at least one, all of the radix.\<close>
  "radix_literal radix s =
     (if s \<noteq> [] \<and> list_all (is_digit radix) s then Fin (of_nat (digits_val radix s)) else NaN)"

definition split_at :: "(char \<Rightarrow> bool) \<Rightarrow> string \<Rightarrow> string \<times> string option" where
  \<comment> \<open>The text before the first character satisfying \<open>p\<close>, and the text after it.\<close>
  "split_at p s =
     (takeWhile (\<lambda>c. \<not> p c) s,
      case dropWhile (\<lambda>c. \<not> p c) s of [] \<Rightarrow> None | _ # r \<Rightarrow> Some r)"

definition exponent_part :: "string \<Rightarrow> int option" where
  \<comment> \<open>\<open>[+-]? digits\<close>, at least one digit.\<close>
  "exponent_part s =
     (let (neg, ds) = (case s of c # r \<Rightarrow> if c = CHR ''-'' then (True, r)
                                          else if c = CHR ''+'' then (False, r) else (False, s)
                               | [] \<Rightarrow> (False, s))
      in if ds \<noteq> [] \<and> list_all (is_digit 10) ds
         then Some (if neg then - int (digits_val 10 ds) else int (digits_val 10 ds))
         else None)"

definition pow10 :: "int \<Rightarrow> rat" where
  "pow10 e = (if 0 \<le> e then 10 ^ nat e else 1 / 10 ^ nat (- e))"

definition unsigned_decimal :: "string \<Rightarrow> rat option" where
  \<comment> \<open>\<open>digits . digits? exp?\<close>, \<open>. digits exp?\<close> or \<open>digits exp?\<close>.\<close>
  "unsigned_decimal s =
     (let (m, e) = split_at (\<lambda>c. c = CHR ''e'' \<or> c = CHR ''E'') s;
          (ip, fp) = split_at (\<lambda>c. c = CHR ''.'') m;
          fr = (case fp of None \<Rightarrow> [] | Some f \<Rightarrow> f);
          ex = (case e of None \<Rightarrow> Some 0 | Some es \<Rightarrow> exponent_part es)
      in if list_all (is_digit 10) ip \<and> list_all (is_digit 10) fr \<and> (ip \<noteq> [] \<or> fr \<noteq> [])
         then (case ex of
                 None \<Rightarrow> None
               | Some x \<Rightarrow>
                   Some ((of_nat (digits_val 10 ip)
                          + of_nat (digits_val 10 fr) / 10 ^ length fr) * pow10 x))
         else None)"

definition signed_decimal :: "string \<Rightarrow> jsnum" where
  "signed_decimal s =
     (let (neg, r) = (case s of c # r \<Rightarrow> if c = CHR ''-'' then (True, r)
                                         else if c = CHR ''+'' then (False, r) else (False, s)
                              | [] \<Rightarrow> (False, s))
      in if r = ''Infinity'' then (if neg then NegInf else PosInf)
         else (case unsigned_decimal r of
                 None \<Rightarrow> NaN
               | Some q \<Rightarrow> Fin (if neg then - q else q)))"

definition string_to_number :: "string \<Rightarrow> jsnum" where
  \<comment> \<open>ECMAScript StringToNumber: white space is trimmed, the empty string is 0, and
      whatever is not a numeric literal is NaN.\<close>
  "string_to_number str =
     (let s = trim str in
      if s = [] then Fin 0
      else if take 2 s = ''0x'' \<or> take 2 s = ''0X'' then radix_literal 16 (drop 2 s)
      else if take 2 s = ''0o'' \<or> take 2 s = ''0O'' then radix_literal 8 (drop 2 s)
      else if take 2 s = ''0b'' \<or> take 2 s = ''0B'' then radix_literal 2 (drop 2 s)
      else signed_decimal s)"

fun Number :: "jsval \<Rightarrow> jsnum" where
  "Number JUndefined = NaN"
| "Number JNull = Fin 0"
| "Number (JBool b) = (if b then Fin 1 else Fin 0)"
| "Number (JNum n) = n"
| "Number (JStr s) = string_to_number s"

definition truthy_num :: "jsnum \<Rightarrow> bool" where
  \<comment> \<open>ToBoolean of a number: false for 0 and NaN.\<close>
  "truthy_num n = (n \<noteq> NaN \<and> n \<noteq> Fin 0)"


fun num_sub :: "jsnum \<Rightarrow> jsnum \<Rightarrow> jsnum" where
  "num_sub NaN _ = NaN"
| "num_sub _ NaN = NaN"
| "num_sub PosInf PosInf = NaN"
| "num_sub NegInf NegInf = NaN"
| "num_sub PosInf _ = PosInf"
| "num_sub NegInf _ = NegInf"
| "num_sub (Fin a) PosInf = NegInf"
| "num_sub (Fin a) NegInf = PosInf"
| "num_sub (Fin a) (Fin b) = Fin (a - b)"

section \<open>Comparators of table.js\<close>

type_synonym comparator = "string \<Rightarrow> obj \<Rightarrow> obj \<Rightarrow> jsnum"



subsection \<open>Array.prototype.sort\<close>





section \<open>Errors\<close>

text \<open>
  \<open>BadTarget\<close> is the one error table.js raises itself (\<open>throw new Error("Bad target
  element: " + element)\<close>); \<open>TypeError\<close> is what the host raises when a property of
  \<open>undefined\<close> or \<open>null\<close> is read or written. A call that throws leaves the mutations
  it made before the throw in place, so both outcomes carry the state.
\<close>

datatype target = Selector string | Element nat

datatype error = TypeError | BadTarget target

datatype 'a outcome = Done 'a | Throws error 'a

fun state_of :: "'a outcome \<Rightarrow> 'a" where
  "state_of (Done s) = s"
| "state_of (Throws e s) = s"

fun and_then :: "'a outcome \<Rightarrow> ('a \<Rightarrow> 'a outcome) \<Rightarrow> 'a outcome" where
  "and_then (Done s) f = f s"
| "and_then (Throws e s) f = Throws e s"

section \<open>inherit.js\<close>

text \<open>
  The values \<open>inherit\<close> handles: \<open>undefined\<close>, \<open>null\<close>, a function (its source text, the
  value of its \<open>prototype\<close> property and its own enumerable properties), any other object
  (its enumerable properties), and the closure that \<open>_superCaller(base, derived)\<close> returns,
  which is a function too and so has a \<open>prototype\<close> and properties of its own.
\<close>

datatype jsobject =
    OUndefined
  | ONull
  | OFunction string jsobject "(string \<times> jsobject) list"
  | OPlain "(string \<times> jsobject) list"
  | SuperCaller jsobject jsobject jsobject "(string \<times> jsobject) list"

fun truthy_object :: "jsobject \<Rightarrow> bool" where
  "truthy_object OUndefined = False"
| "truthy_object ONull = False"
| "truthy_object _ = True"

fun read_prop :: "jsobject \<Rightarrow> string \<Rightarrow> error + jsobject" where
  "read_prop OUndefined k = Inl TypeError"
| "read_prop ONull k = Inl TypeError"
| "read_prop (OPlain ps) k = Inr (case get_prop ps k of None \<Rightarrow> OUndefined | Some v \<Rightarrow> v)"
| "read_prop (OFunction src proto ps) k =
     Inr (if k = ''prototype'' then proto
          else case get_prop ps k of None \<Rightarrow> OUndefined | Some v \<Rightarrow> v)"
| "read_prop (SuperCaller b d proto ps) k =
     Inr (if k = ''prototype'' then proto
          else case get_prop ps k of None \<Rightarrow> OUndefined | Some v \<Rightarrow> v)"

fun write_prop :: "jsobject \<Rightarrow> string \<Rightarrow> jsobject \<Rightarrow> error + jsobject" where
  "write_prop OUndefined k v = Inl TypeError"
| "write_prop ONull k v = Inl TypeError"
| "write_prop (OPlain ps) k v = Inr (OPlain (put_prop ps k v))"
| "write_prop (OFunction src proto ps) k v =
     Inr (if k = ''prototype'' then OFunction src v ps else OFunction src proto (put_prop ps k v))"
| "write_prop (SuperCaller b d proto ps) k v =
     Inr (if k = ''prototype'' then SuperCaller b d v ps
          else SuperCaller b d proto (put_prop ps k v))"

fun enumerable :: "jsobject \<Rightarrow> (string \<times> jsobject) list" where
  \<comment> \<open>What \<open>for (name in x)\<close> visits; a function's \<open>prototype\<close> is not enumerable.\<close>
  "enumerable (OPlain ps) = ps"
| "enumerable (OFunction src proto ps) = ps"
| "enumerable (SuperCaller b d proto ps) = ps"
| "enumerable _ = []"

definition priv_superCaller :: "jsobject \<Rightarrow> jsobject \<Rightarrow> jsobject" where
  \<comment> \<open>\<open>_superCaller(base, derived)\<close>: a new function closing over both.\<close>
  "priv_superCaller base derived = SuperCaller base derived (OPlain []) []"

definition priv_overriding :: "string \<Rightarrow> jsobject \<Rightarrow> jsobject \<Rightarrow> error + jsobject" where
  \<comment> \<open>\<open>_overriding(name, supr, derv)\<close>. The two member reads run; then the line holds
      \<open>return\<close> alone, which the language ends there (a line break after \<open>return\<close>), so the
      function returns \<open>undefined\<close> and the conjunction on the lines below is never
      evaluated.\<close>
  "priv_overriding name supr derv =
     (case read_prop supr name of
        Inl e \<Rightarrow> Inl e
      | Inr suprMember \<Rightarrow>
          (case read_prop derv name of
             Inl e \<Rightarrow> Inl e
           | Inr dervMember \<Rightarrow> Inr OUndefined))"

definition priv_getPrototype :: "jsobject \<Rightarrow> jsobject" where
  \<comment> \<open>\<open>_getPrototype(clas)\<close>: again \<open>return\<close> alone on its line, so \<open>undefined\<close>.\<close>
  "priv_getPrototype clas = OUndefined"

definition priv_copyMembers :: "jsobject \<Rightarrow> jsobject \<Rightarrow> error + jsobject" where
  \<comment> \<open>\<open>_copyMembers(src, dest)\<close>: every own enumerable property of \<open>src\<close> onto \<open>dest\<close>.\<close>
  "priv_copyMembers src dest =
     foldl (\<lambda>acc (k, v). case acc of Inl e \<Rightarrow> Inl e | Inr d \<Rightarrow> write_prop d k v)
       (Inr dest) (enumerable src)"

fun inherit_members ::
  "(jsobject \<Rightarrow> bool) \<Rightarrow> jsobject \<Rightarrow> jsobject \<Rightarrow> string list \<Rightarrow> jsobject \<Rightarrow> error + jsobject"
where
  \<comment> \<open>The loop \<open>for (var name in derv)\<close> of \<open>inherit\<close>, threading \<open>proto\<close>.\<close>
  "inherit_members callsSuper supr derv [] proto = Inr proto"
| "inherit_members callsSuper supr derv (name # names) proto =
     (case read_prop derv name of
        Inl e \<Rightarrow> Inl e
      | Inr dervFunc \<Rightarrow>
          (case priv_overriding name supr derv of
             Inl e \<Rightarrow> Inl e
           | Inr ov \<Rightarrow>
               (case (if truthy_object ov \<and> callsSuper dervFunc
                      then (case read_prop supr name of
                              Inl e \<Rightarrow> Inl e
                            | Inr suprFunc \<Rightarrow>
                                write_prop proto name (priv_superCaller suprFunc dervFunc))
                      else write_prop proto name dervFunc) of
                  Inl e \<Rightarrow> Inl e
                | Inr proto' \<Rightarrow> inherit_members callsSuper supr derv names proto')))"

definition inherit :: "(jsobject \<Rightarrow> bool) \<Rightarrow> jsobject \<Rightarrow> jsobject \<Rightarrow> error + jsobject" where
  \<comment> \<open>The function inherit.js returns. \<open>callsSuper\<close> stands for \<open>_callsSuper.test\<close>: the
      initialiser of \<open>_callsSuper\<close> has a closing parenthesis too many and cannot be
      evaluated, so the test is a parameter.\<close>
  "inherit callsSuper base derived =
     (case read_prop base ''prototype'' of
        Inl e \<Rightarrow> Inl e
      | Inr supr \<Rightarrow>
     (case read_prop derived ''prototype'' of
        Inl e \<Rightarrow> Inl e
      | Inr derv \<Rightarrow>
     (case inherit_members callsSuper supr derv (map fst (enumerable derv))
             (priv_getPrototype base) of
        Inl e \<Rightarrow> Inl e
      | Inr proto \<Rightarrow>
     (case write_prop proto ''constructor'' derived of
        Inl e \<Rightarrow> Inl e
      | Inr proto' \<Rightarrow>
     (case write_prop derived ''prototype'' proto' of
        Inl e \<Rightarrow> Inl e
      | Inr derived' \<Rightarrow>
     (case write_prop (priv_superCaller base derived') ''prototype''
             (priv_getPrototype derived') of
        Inl e \<Rightarrow> Inl e
      | Inr clas \<Rightarrow> priv_copyMembers derived' clas))))))"

text \<open>
  A base and a derived definition that both carry a callable member \<open>greet\<close>, the derived
  one calling up through \<open>this._super\<close>.
\<close>

definition greet_base :: jsobject where
  "greet_base =
     OFunction ''function Base(){}''
       (OPlain [(''greet'', OFunction ''function(){ return 1; }'' (OPlain []) [])]) []"

definition greet_derived :: jsobject where
  "greet_derived =
     OFunction ''function Derived(){}''
       (OPlain [(''greet'', OFunction ''function(){ return this._super() + 1; }'' (OPlain []) [])])
       []"

section \<open>table.js: strings, classes and the remaining comparators\<close>

fun truthy :: "jsval \<Rightarrow> bool" where
  "truthy JUndefined = False"
| "truthy JNull = False"
| "truthy (JBool b) = b"
| "truthy (JNum n) = truthy_num n"
| "truthy (JStr s) = (s \<noteq> [])"

fun str_less :: "string \<Rightarrow> string \<Rightarrow> bool" where
  \<comment> \<open>\<open>a < b\<close> on strings: the first differing code unit decides, a proper prefix is less.\<close>
  "str_less [] [] = False"
| "str_less [] (y # ys) = True"
| "str_less (x # xs) [] = False"
| "str_less (x # xs) (y # ys) =
     ((of_char x :: nat) < of_char y \<or> (x = y \<and> str_less xs ys))"

definition toLowerCase :: "string \<Rightarrow> string" where
  \<comment> \<open>Text is a list of bytes here, so only the ASCII letters change.\<close>
  "toLowerCase s =
     map (\<lambda>c. let n = (of_char c :: nat) in if 65 \<le> n \<and> n \<le> 90 then char_of (n + 32) else c) s"

text \<open>
  \<open>String(v)\<close> is the host's conversion; how it prints a binary64 value is outside this
  model, so the comparators and the default column settings that use it take it as the
  parameter \<open>S\<close>.
\<close>

definition stringSort :: "(jsval \<Rightarrow> string) \<Rightarrow> comparator" where
  "stringSort S column a b =
     (let aData = S (field a column); bData = S (field b column)
      in if str_less aData bData then Fin (- 1)
         else if str_less bData aData then Fin 1 else Fin 0)"

definition caseInsensitiveSort :: "(jsval \<Rightarrow> string) \<Rightarrow> comparator" where
  "caseInsensitiveSort S column a b =
     (let aData = toLowerCase (S (field a column)); bData = toLowerCase (S (field b column))
      in if str_less aData bData then Fin (- 1)
         else if str_less bData aData then Fin 1 else Fin 0)"

definition booleanSort :: comparator where
  "booleanSort column a b =
     num_sub (Number (JBool (truthy (field b column)))) (Number (JBool (truthy (field a column))))"

fun split_ws :: "string \<Rightarrow> string \<Rightarrow> string list" where
  "split_ws [] cur = (if cur = [] then [] else [rev cur])"
| "split_ws (c # cs) cur =
     (if is_ws c then (if cur = [] then split_ws cs [] else rev cur # split_ws cs [])
      else split_ws cs (c # cur))"

definition tokens :: "string \<Rightarrow> string list" where
  \<comment> \<open>The class names in an argument of addClass or removeClass: split at white space.\<close>
  "tokens s = split_ws s []"

definition addClass :: "string list \<Rightarrow> string \<Rightarrow> string list" where
  "addClass cs v = foldl (\<lambda>acc c. if c \<in> set acc then acc else acc @ [c]) cs (tokens v)"




section \<open>table.js: the widget's state\<close>

text \<open>
  What a cell generator returns: a value (markup when it is a string) or a renderable
  element, described by its markup. A generator is called with the column name, the
  row's record and the column's filter; the table instance, its third argument in the
  source, is used by the stock generators only to register click handlers on the
  container and is left out.
\<close>

datatype inner = Val jsval | Node string

type_synonym generator = "string \<Rightarrow> obj \<Rightarrow> (jsval \<Rightarrow> jsval) \<Rightarrow> inner"

text \<open>
  A column definition as the caller writes it: every field but the name may be absent.
  \<open>c_sort = Some None\<close> is \<open>sort: false\<close>. \<open>c_colspan\<close> is the length of the value given.
\<close>

record column =
  c_name :: string
  c_title :: "string option"
  c_generator :: "generator option"
  c_filter :: "(jsval \<Rightarrow> jsval) option"
  c_sort :: "comparator option option"
  c_colspan :: "nat option"

text \<open>A column definition after the defaults are merged in.\<close>

record header =
  h_name :: string
  h_title :: "string option"
  h_generator :: generator
  h_filter :: "jsval \<Rightarrow> jsval"
  h_sort :: "comparator option"
  h_colspan :: "nat option"

datatype content = Html string | Appended inner

record td =
  td_classes :: "string list"
  td_name :: string
  td_content :: content

text \<open>
  A body row. \<open>tr_data\<close> is what \<open>row.data('data').data\<close> reads: the record of the row
  entry bound to the row, as its address in the heap of records.
\<close>

record tr =
  tr_classes :: "string list"
  tr_cells :: "td list"
  tr_data :: "nat option"

record th =
  th_classes :: "string list"
  th_html :: "string option"
  th_colspan :: "nat option"
  th_click :: "(string \<times> comparator) option"

text \<open>
  A table cloned from \<open>TABLE_TEMPLATE\<close>: its classes, the cells of the one row of its head
  and the rows of its body, each row an address in the store of rows.
\<close>

record dom_table =
  tb_classes :: "string list"
  thead :: "th list"
  tbody :: "nat list"

record entry =
  e_row :: "nat option"
  e_data :: nat

text \<open>
  The fields of a Table instance (\<open>t_\<close>) and what they refer to: the heap of record
  objects \<open>objs\<close> (the caller's and the table's copies), the store of row elements \<open>trs\<close>,
  the deferred tasks \<open>timers\<close> (each the \<open>start\<close> of a pending \<open>_insertData\<close>), the
  container element that holds the two tables since the last rebuild (\<open>mount\<close>) and the
  classes of the body container. \<open>t_element\<close> is a jQuery set: the matched elements.
  The field \<open>_table\<close> is only ever set to \<open>null\<close> and is left out. \<open>'cb\<close> is the type of
  the caller's row callbacks.
\<close>

record 'cb world =
  t_element :: "nat list option"
  t_config :: obj
  t_callbacks :: "(string \<times> 'cb) list"
  t_headers :: "header list option"
  t_data :: "entry list option"
  t_bodyTable :: "dom_table option"
  t_headerTable :: "dom_table option"
  objs :: "obj list"
  trs :: "tr list"
  timers :: "nat list"
  mount :: "nat option"
  container :: "string list"

definition rowIDColumn :: string where
  "rowIDColumn = ''_table_rowID''"

definition TABLE_TEMPLATE :: dom_table where
  "TABLE_TEMPLATE = \<lparr>tb_classes = [''pl-table''], thead = [], tbody = []\<rparr>"

definition DEFAULT_TABLE_CONFIG :: obj where
  "DEFAULT_TABLE_CONFIG =
     [(''selectable'', JBool False), (''scrollable'', JBool False), (''pinToBottom'', JBool False)]"

definition textCell :: generator where
  "textCell = (\<lambda>name data filter. Val (filter (field data name)))"

definition INSERT_BATCH_LIMIT :: nat where
  "INSERT_BATCH_LIMIT = 500"

definition entries :: "'cb world \<Rightarrow> entry list" where
  "entries w = (case t_data w of None \<Rightarrow> [] | Some es \<Rightarrow> es)"

definition headers_of :: "'cb world \<Rightarrow> header list" where
  \<comment> \<open>\<open>for (i in this._headers)\<close> visits nothing while the headers are \<open>undefined\<close>.\<close>
  "headers_of w = (case t_headers w of None \<Rightarrow> [] | Some hs \<Rightarrow> hs)"

definition deref :: "obj list \<Rightarrow> nat \<Rightarrow> obj" where
  \<comment> \<open>The record at an address; what is not an object has no properties.\<close>
  "deref h a = (if a < length h then h ! a else [])"

definition tr_at :: "'cb world \<Rightarrow> nat \<Rightarrow> tr option" where
  "tr_at w a = (if a < length (trs w) then Some (trs w ! a) else None)"

definition jq_extend :: "obj \<Rightarrow> obj \<Rightarrow> obj" where
  \<comment> \<open>\<open>$.extend(target, src)\<close> on primitive values: every property that is not
      \<open>undefined\<close> is copied.\<close>
  "jq_extend tgt src = foldl (\<lambda>t (k, v). if v = JUndefined then t else put_prop t k v) tgt src"

definition jq_extend_props :: "(string \<times> 'a) list \<Rightarrow> (string \<times> 'a) list \<Rightarrow> (string \<times> 'a) list" where
  "jq_extend_props tgt src = foldl (\<lambda>t (k, v). put_prop t k v) tgt src"

section \<open>table.js: private operations\<close>

definition DEFAULT_COLUMN_CONFIG :: "(jsval \<Rightarrow> string) \<Rightarrow> header" where
  \<comment> \<open>The name and title fields are not part of the defaults; they are filled from the
      column definition.\<close>
  "DEFAULT_COLUMN_CONFIG S =
     \<lparr>h_name = [], h_title = None, h_generator = textCell, h_filter = (\<lambda>v. JStr (S v)),
      h_sort = Some (caseInsensitiveSort S), h_colspan = None\<rparr>"

definition extend_column :: "header \<Rightarrow> column \<Rightarrow> header" where
  \<comment> \<open>\<open>$.extend({}, DEFAULT_COLUMN_CONFIG, headers[i])\<close>.\<close>
  "extend_column dflt c =
     \<lparr>h_name = c_name c,
      h_title = c_title c,
      h_generator = (case c_generator c of None \<Rightarrow> h_generator dflt | Some g \<Rightarrow> g),
      h_filter = (case c_filter c of None \<Rightarrow> h_filter dflt | Some f \<Rightarrow> f),
      h_sort = (case c_sort c of None \<Rightarrow> h_sort dflt | Some sm \<Rightarrow> sm),
      h_colspan = c_colspan c\<rparr>"

definition priv_setHeaders :: "(jsval \<Rightarrow> string) \<Rightarrow> column list \<Rightarrow> 'cb world \<Rightarrow> 'cb world" where
  "priv_setHeaders S headers w =
     w\<lparr>t_headers := Some (map (extend_column (DEFAULT_COLUMN_CONFIG S)) headers)\<rparr>"

definition priv_setCallbacks :: "(string \<times> 'cb) list \<Rightarrow> 'cb world \<Rightarrow> 'cb world" where
  "priv_setCallbacks callbacks w =
     w\<lparr>t_callbacks := jq_extend_props (jq_extend_props [] (t_callbacks w)) callbacks\<rparr>"

function setData_loop :: "nat list \<Rightarrow> nat \<Rightarrow> 'cb world \<Rightarrow> 'cb world" where
  "setData_loop data i w =
     (if i < length data then
        let datum = jq_extend [] (deref (objs w) (data ! i));
            datum' = put_prop datum rowIDColumn (JNum (Fin (of_nat (i + 1))));
            w' = w\<lparr>objs := objs w @ [datum'],
                   t_data := Some (entries w @ [\<lparr>e_row = None, e_data = length (objs w)\<rparr>])\<rparr>
        in setData_loop data (Suc i) w'
      else w)"
  by pat_completeness auto
termination
  by (relation "measure (\<lambda>(data, i, w). length data - i)") auto

definition priv_setData :: "nat list \<Rightarrow> 'cb world \<Rightarrow> 'cb world" where
  \<comment> \<open>\<open>data\<close> is the array of records, each the address of a record object.\<close>
  "priv_setData data w = setData_loop data 0 (w\<lparr>t_data := Some []\<rparr>)"

definition priv_createCell :: "string \<Rightarrow> obj \<Rightarrow> header \<Rightarrow> td" where
  "priv_createCell cellName datum hdr =
     (let inner = h_generator hdr cellName datum (h_filter hdr)
      in \<lparr>td_classes = addClass [''column''] cellName,
          td_name = cellName,
          td_content = (case inner of Val (JStr m) \<Rightarrow> Html m | _ \<Rightarrow> Appended inner)\<rparr>)"

definition detach :: "nat \<Rightarrow> 'cb world \<Rightarrow> 'cb world" where
  \<comment> \<open>\<open>row.detach()\<close>: the row leaves the body it stands in.\<close>
  "detach a w =
     w\<lparr>t_bodyTable := map_option (\<lambda>b. b\<lparr>tbody := removeAll a (tbody b)\<rparr>) (t_bodyTable w),
       t_headerTable := map_option (\<lambda>b. b\<lparr>tbody := removeAll a (tbody b)\<rparr>) (t_headerTable w)\<rparr>"

definition append_body :: "nat \<Rightarrow> 'cb world \<Rightarrow> 'cb world" where
  \<comment> \<open>\<open>row.appendTo(tbody)\<close> for a row that stands nowhere.\<close>
  "append_body a w =
     w\<lparr>t_bodyTable := map_option (\<lambda>b. b\<lparr>tbody := tbody b @ [a]\<rparr>) (t_bodyTable w)\<rparr>"

definition insert_row :: "nat \<Rightarrow> 'cb world \<Rightarrow> 'cb world" where
  \<comment> \<open>The body of the loop of \<open>_insertData\<close>, for the entry at index \<open>k\<close>.\<close>
  "insert_row k w =
     (let datum = entries w ! k in
      case e_row datum of
        None \<Rightarrow>
          let a = length (trs w);
              row = \<lparr>tr_classes = [],
                     tr_cells = map (\<lambda>hdr. priv_createCell (h_name hdr)
                                             (deref (objs w) (e_data datum)) hdr) (headers_of w),
                     tr_data = Some (e_data datum)\<rparr>
          in append_body a
               (w\<lparr>trs := trs w @ [row],
                  t_data := Some ((entries w)[k := datum\<lparr>e_row := Some a\<rparr>])\<rparr>)
      | Some a \<Rightarrow>
          let w1 = detach a w
          in append_body a
               (w1\<lparr>trs := (trs w1)[a := (trs w1 ! a)\<lparr>tr_data := Some (e_data datum)\<rparr>]\<rparr>))"

function insert_loop :: "nat \<Rightarrow> nat \<Rightarrow> 'cb world \<Rightarrow> nat \<times> 'cb world" where
  "insert_loop start i w =
     (if i < INSERT_BATCH_LIMIT \<and> start + i < length (entries w)
      then insert_loop start (Suc i) (insert_row (start + i) w)
      else (i, w))"
  by pat_completeness auto
termination
  by (relation "measure (\<lambda>(start, i, w). INSERT_BATCH_LIMIT - i)") auto

definition clone :: "tr \<Rightarrow> tr" where
  \<comment> \<open>\<open>row.clone()\<close>: classes and cells are copied, bound data is not.\<close>
  "clone r = r\<lparr>tr_data := None\<rparr>"

definition priv_insertData :: "nat \<Rightarrow> 'cb world \<Rightarrow> 'cb world outcome" where
  \<comment> \<open>Reading a table or the data array while it is \<open>undefined\<close>, the entry at \<open>start\<close>
      when there is none, or its row while that is \<open>null\<close>, is a TypeError.\<close>
  "priv_insertData start w =
     (case t_bodyTable w of
        None \<Rightarrow> Throws TypeError w
      | Some _ \<Rightarrow>
     (case t_data w of
        None \<Rightarrow> Throws TypeError w
      | Some _ \<Rightarrow>
          let (i, w1) = insert_loop start 0 w in
          (case t_headerTable w1 of
             None \<Rightarrow> Throws TypeError w1
           | Some ht \<Rightarrow>
               if start < length (entries w1) then
                 (case e_row (entries w1 ! start) of
                    None \<Rightarrow> Throws TypeError w1
                  | Some a \<Rightarrow>
                 (case tr_at w1 a of
                    None \<Rightarrow> Throws TypeError w1
                  | Some r \<Rightarrow>
                      let w2 = w1\<lparr>trs := trs w1 @ [clone r],
                                  t_headerTable :=
                                    Some (ht\<lparr>tbody := tbody ht @ [length (trs w1)]\<rparr>)\<rparr>
                      in Done (if start + i < length (entries w2)
                               then w2\<lparr>timers := timers w2 @ [start + i]\<rparr> else w2)))
               else Throws TypeError w1)))"

definition header_cell :: "header \<Rightarrow> th" where
  \<comment> \<open>One pass of the loop over the headers in \<open>_updateTable\<close>, with \<open>_addSortControls\<close>.\<close>
  "header_cell hdr =
     (let cls = addClass [''column'', ''header''] (h_name hdr)
      in \<lparr>th_classes = (case h_sort hdr of None \<Rightarrow> cls | Some sm \<Rightarrow> addClass cls ''sortable''),
          th_html = (case h_title hdr of None \<Rightarrow> None | Some t \<Rightarrow> if t = [] then None else Some t),
          th_colspan = h_colspan hdr,
          th_click = (case h_sort hdr of None \<Rightarrow> None | Some sm \<Rightarrow> Some (h_name hdr, sm))\<rparr>)"

definition start_tables :: "'cb world \<Rightarrow> 'cb world" where
  \<comment> \<open>The two clones of the template, classed \<open>header\<close> and \<open>body\<close> and assigned to
      \<open>this._headerTable\<close> and \<open>this._bodyTable\<close>.\<close>
  "start_tables w =
     w\<lparr>t_bodyTable :=
         Some (TABLE_TEMPLATE\<lparr>tb_classes := addClass (tb_classes TABLE_TEMPLATE) ''body''\<rparr>),
       t_headerTable :=
         Some (TABLE_TEMPLATE\<lparr>tb_classes := addClass (tb_classes TABLE_TEMPLATE) ''header''\<rparr>)\<rparr>"

definition place_tables :: "nat list \<Rightarrow> 'cb world \<Rightarrow> 'cb world" where
  \<comment> \<open>The tables go into the emptied container (the last element of the set holds the
      originals), the head row gets one cell per header, and the body container is
      classed \<open>scrollable\<close> when the configuration says so.\<close>
  "place_tables el w =
     w\<lparr>mount := (if el = [] then None else Some (last el)),
       t_headerTable :=
         map_option (\<lambda>ht. ht\<lparr>thead := map header_cell (headers_of w)\<rparr>) (t_headerTable w),
       container :=
         (if truthy (field (t_config w) ''scrollable'')
          then addClass [''pl-table-body-container''] ''scrollable''
          else [''pl-table-body-container''])\<rparr>"

definition priv_updateTable :: "'cb world \<Rightarrow> 'cb world outcome" where
  "priv_updateTable w =
     (let w1 = start_tables w
      in case t_element w1 of
           None \<Rightarrow> Throws TypeError w1
         | Some el \<Rightarrow>
             let w2 = place_tables el w1
             in if entries w2 \<noteq> [] then priv_insertData 0 w2 else Done w2)"

definition fire_timer :: "'cb world \<Rightarrow> 'cb world outcome" where
  \<comment> \<open>The host runs the oldest deferred task.\<close>
  "fire_timer w =
     (case timers w of [] \<Rightarrow> Done w | start # rest \<Rightarrow> priv_insertData start (w\<lparr>timers := rest\<rparr>))"




text \<open>
  A click or double click delivered to the handler delegated on the body table: what
  \<open>event.target\<close> is (the row itself, one of its cells, or an element inside a cell) and
  the row it lies in.
\<close>

datatype hit = OnRow | OnCell | OnInner



definition priv_onWindowResized :: "(nat \<Rightarrow> bool) \<Rightarrow> 'cb world \<Rightarrow> 'cb world outcome" where
  \<comment> \<open>\<open>lw m\<close>: the page has an element of class \<open>lw-table-body-container\<close> at or above the
      container \<open>m\<close>. The body container built by \<open>_updateTable\<close> has the class
      \<open>pl-table-body-container\<close>, so \<open>closest\<close> finds nothing below \<open>m\<close>, and \<open>offset()\<close> of
      an empty set is \<open>undefined\<close>. The height is set on an element of the page, not of the
      model.\<close>
  "priv_onWindowResized lw w =
     (let bottomOffset = Number (field (t_config w) ''pinToBottom'') in
      if \<not> truthy_num bottomOffset then Done w
      else (case t_bodyTable w of
              None \<Rightarrow> Throws TypeError w
            | Some _ \<Rightarrow>
                (case mount w of
                   None \<Rightarrow> Throws TypeError w
                 | Some m \<Rightarrow> if lw m then Done w else Throws TypeError w)))"

definition priv_mergeConfig :: "obj \<Rightarrow> 'cb world \<Rightarrow> 'cb world" where
  "priv_mergeConfig config w = w\<lparr>t_config := jq_extend (t_config w) config\<rparr>"

section \<open>table.js: public operations\<close>

definition dollar :: "(string \<Rightarrow> nat list) \<Rightarrow> target \<Rightarrow> nat list" where
  \<comment> \<open>\<open>$(element)\<close>: the elements a selector matches in the page (\<open>query\<close>), or the one
      element given. The result is a jQuery set, also when it is empty.\<close>
  "dollar query t = (case t of Selector sel \<Rightarrow> query sel | Element n \<Rightarrow> [n])"

definition truthy_jquery :: "nat list \<Rightarrow> bool" where
  \<comment> \<open>ToBoolean of a jQuery set: it is an object, and every object is truthy.\<close>
  "truthy_jquery el = True"

definition setElement :: "(string \<Rightarrow> nat list) \<Rightarrow> target \<Rightarrow> 'cb world \<Rightarrow> 'cb world outcome" where
  "setElement query element w =
     (let w1 = w\<lparr>t_element := Some (dollar query element)\<rparr>
      in if \<not> truthy_jquery (dollar query element) then Throws (BadTarget element) w1
         else Done w1)"

text \<open>
  The options object: the three keys that \<open>setOpts\<close> handles itself, each absent or holding
  the array or object the documentation describes, and the remaining keys.
\<close>

record 'cb opts =
  o_headers :: "column list option"
  o_callbacks :: "(string \<times> 'cb) list option"
  o_data :: "nat list option"
  o_config :: obj

definition setOpts ::
  "(jsval \<Rightarrow> string) \<Rightarrow> (nat \<Rightarrow> bool) \<Rightarrow> 'cb opts \<Rightarrow> 'cb world \<Rightarrow> 'cb opts \<times> 'cb world outcome"
where
  \<comment> \<open>Returns the caller's options object as the call leaves it, and the outcome. An
      array or an object is truthy, so each \<open>if (opts.key)\<close> asks whether the key is there.\<close>
  "setOpts S lw opts w =
     (let (opts1, w1) = (case o_headers opts of
                           None \<Rightarrow> (opts, w)
                         | Some hs \<Rightarrow> (opts\<lparr>o_headers := None\<rparr>, priv_setHeaders S hs w));
          (opts2, w2) = (case o_callbacks opts1 of
                           None \<Rightarrow> (opts1, w1)
                         | Some cbs \<Rightarrow> (opts1\<lparr>o_callbacks := None\<rparr>, priv_setCallbacks cbs w1));
          (opts3, w3) = (case o_data opts2 of
                           None \<Rightarrow> (opts2, w2)
                         | Some d \<Rightarrow> (opts2\<lparr>o_data := None\<rparr>, priv_setData d w2));
          w4 = priv_mergeConfig (o_config opts3) w3
      in (opts3, and_then (priv_updateTable w4) (priv_onWindowResized lw)))"

definition setHeaders :: "(jsval \<Rightarrow> string) \<Rightarrow> column list \<Rightarrow> 'cb world \<Rightarrow> 'cb world outcome" where
  "setHeaders S headers w = priv_updateTable (priv_setHeaders S headers w)"

definition setData :: "(nat \<Rightarrow> bool) \<Rightarrow> nat list \<Rightarrow> 'cb world \<Rightarrow> 'cb world outcome" where
  \<comment> \<open>\<open>data\<close> stands for the array \<open>[].concat(data)\<close>: the elements of the array given.\<close>
  "setData lw data w =
     and_then (priv_updateTable (priv_setData data w)) (priv_onWindowResized lw)"

definition rebuild :: "'cb world \<Rightarrow> 'cb world outcome" where
  "rebuild w =
     priv_updateTable
       (case t_data w of
          None \<Rightarrow> w
        | Some es \<Rightarrow> w\<lparr>t_data := Some (map (\<lambda>e. e\<lparr>e_row := None\<rparr>) es)\<rparr>)"





definition new_table :: "obj list \<Rightarrow> 'cb world" where
  \<comment> \<open>The instance the constructor starts from, in a page whose heap is \<open>heap\<close>.\<close>
  "new_table heap =
     \<lparr>t_element = None, t_config = jq_extend [] DEFAULT_TABLE_CONFIG, t_callbacks = [],
      t_headers = None, t_data = None, t_bodyTable = None, t_headerTable = None,
      objs = heap, trs = [], timers = [], mount = None, container = []\<rparr>"

definition Table ::
  "(string \<Rightarrow> nat list) \<Rightarrow> (jsval \<Rightarrow> string) \<Rightarrow> (nat \<Rightarrow> bool) \<Rightarrow> target option \<Rightarrow> 'cb opts option
     \<Rightarrow> obj list \<Rightarrow> 'cb opts option \<times> 'cb world outcome"
where
  \<comment> \<open>The constructor; an exception of \<open>setElement\<close> ends it before \<open>setOpts\<close> runs.\<close>
  "Table query S lw element opts heap =
     (case (case element of None \<Rightarrow> Done (new_table heap)
                          | Some t \<Rightarrow> setElement query t (new_table heap)) of
        Throws e w \<Rightarrow> (opts, Throws e w)
      | Done w \<Rightarrow>
          (case opts of
             None \<Rightarrow> (None, Done w)
           | Some ob \<Rightarrow> (let (ob', r) = setOpts S lw ob w in (Some ob', r))))"

section \<open>Observations used in the statements\<close>

definition body_rows :: "'cb world \<Rightarrow> nat list" where
  \<comment> \<open>The rows of the body table, in document order.\<close>
  "body_rows w = (case t_bodyTable w of None \<Rightarrow> [] | Some bt \<Rightarrow> tbody bt)"

definition header_rows :: "'cb world \<Rightarrow> nat list" where
  \<comment> \<open>The rows in the body of the header table: the clones made for column sizing.\<close>
  "header_rows w = (case t_headerTable w of None \<Rightarrow> [] | Some ht \<Rightarrow> tbody ht)"

definition fire_n :: "nat \<Rightarrow> 'cb world \<Rightarrow> 'cb world" where
  \<comment> \<open>The host runs \<open>k\<close> deferred tasks, one after the other.\<close>
  "fire_n k w = ((\<lambda>v. state_of (fire_timer v)) ^^ k) w"

definition rendering :: "nat \<Rightarrow> nat \<Rightarrow> 'cb world \<Rightarrow> bool" where
  \<comment> \<open>A render of \<open>n\<close> entries that has placed the first \<open>s\<close>: both tables exist, the
      body holds \<open>s\<close> rows, and the entries from \<open>s\<close> on have no row yet.\<close>
  "rendering n s w =
     (\<exists>bt ht es. t_bodyTable w = Some bt \<and> t_headerTable w = Some ht \<and> t_data w = Some es
        \<and> length es = n \<and> length (tbody bt) = s
        \<and> (\<forall>j. s \<le> j \<and> j < n \<longrightarrow> e_row (es ! j) = None))"

definition row_record :: "obj \<Rightarrow> nat \<Rightarrow> obj" where
  \<comment> \<open>The record \<open>_setData\<close> stores for the element at index \<open>i\<close> of the array: a copy of
      its properties, with the row-id \<open>i + 1\<close>.\<close>
  "row_record r i = put_prop (jq_extend [] r) rowIDColumn (JNum (Fin (of_nat (i + 1))))"






definition records_of :: "'cb world \<Rightarrow> nat list" where
  \<comment> \<open>The data array as the sequence of its records.\<close>
  "records_of w = map e_data (entries w)"




section \<open>Concrete pages and inputs\<close>

definition two_records :: "obj list" where
  \<comment> \<open>A heap holding two caller records.\<close>
  "two_records = [[(''v'', JStr ''10'')], [(''v'', JStr ''2'')]]"

definition grid_table :: "string world" where
  \<comment> \<open>A new instance bound to the one element that \<open>#grid\<close> matches in the page.\<close>
  "grid_table =
     state_of (setElement (\<lambda>sel. if sel = ''#grid'' then [0] else []) (Selector ''#grid'')
                 (new_table two_records))"

definition rows_1200 :: "nat list" where
  \<comment> \<open>An array of 1200 rows (each the first record of the heap).\<close>
  "rows_1200 = replicate 1200 0"

definition no_lw :: "nat \<Rightarrow> bool" where
  \<comment> \<open>A page with no element of class \<open>lw-table-body-container\<close>.\<close>
  "no_lw m = False"











section \<open>Properties of the comparators\<close>






section \<open>Properties of inherit\<close>

lemma read_prop_error: "read_prop x k = Inl e \<Longrightarrow> e = TypeError"
  by (cases x) simp_all

lemma inherit_members_undefined_proto:
  "names \<noteq> [] \<Longrightarrow> inherit_members callsSuper supr derv names OUndefined = Inl TypeError"
  by (cases names)
     (auto simp: priv_overriding_def split: sum.splits dest: read_prop_error)

lemma inherit_always_throws: "inherit callsSuper base derived = Inl TypeError"
proof (cases "read_prop base ''prototype''")
  case (Inl e)
  then show ?thesis by (cases base) (simp_all add: inherit_def)
next
  case base: (Inr supr)
  show ?thesis
  proof (cases "read_prop derived ''prototype''")
    case (Inl e)
    then show ?thesis using base by (cases derived) (simp_all add: inherit_def)
  next
    case derived: (Inr derv)
    show ?thesis
    proof (cases "map fst (enumerable derv) = []")
      case True
      then show ?thesis using base derived
        by (simp add: inherit_def priv_getPrototype_def)
    next
      case False
      then show ?thesis using base derived inherit_members_undefined_proto [OF False]
        by (simp add: inherit_def priv_getPrototype_def)
    qed
  qed
qed

text \<open>
  C2. On a base and a derived definition whose prototypes both hold a callable \<open>greet\<close>,
  the derived one referring to \<open>_super\<close>, the override test answers \<open>undefined\<close> and
  \<open>inherit\<close> ends in a TypeError, whatever the up-call test answers: no combined
  definition is produced and no member is wrapped.
\<close>

theorem inherit_installs_no_wrapper:
  "priv_overriding ''greet''
      (OPlain [(''greet'', OFunction ''function(){ return 1; }'' (OPlain []) [])])
      (OPlain [(''greet'', OFunction ''function(){ return this._super() + 1; }'' (OPlain []) [])])
     = Inr OUndefined
   \<and> inherit callsSuper greet_base greet_derived = Inl TypeError"
  by (simp add: priv_overriding_def get_prop_def inherit_always_throws)

section \<open>Properties of the table\<close>

subsection \<open>Binding to a container\<close>

lemma setElement_total:
  "setElement query element w = Done (w\<lparr>t_element := Some (dollar query element)\<rparr>)"
  by (simp add: setElement_def truthy_jquery_def)

text \<open>
  C1. A selector that matches nothing resolves to an empty jQuery set, and \<open>setElement\<close>
  returns normally with the instance bound to that empty set: no error is raised.
\<close>

theorem setElement_accepts_unmatched_selector:
  "dollar (\<lambda>sel. []) (Selector ''#missing'') = []
   \<and> setElement (\<lambda>sel. []) (Selector ''#missing'') (new_table [])
       = Done ((new_table [])\<lparr>t_element := Some []\<rparr>)"
  by (simp add: setElement_def truthy_jquery_def dollar_def)

subsection \<open>What a render leaves alone\<close>

lemma entries_update:
  "entries (w\<lparr>trs := a\<rparr>) = entries w"
  "entries (w\<lparr>t_headerTable := b\<rparr>) = entries w"
  "entries (w\<lparr>t_bodyTable := c\<rparr>) = entries w"
  "entries (w\<lparr>timers := d\<rparr>) = entries w"
  "entries (w\<lparr>objs := e\<rparr>) = entries w"
  "entries (w\<lparr>mount := f\<rparr>) = entries w"
  "entries (w\<lparr>container := g\<rparr>) = entries w"
  "entries (w\<lparr>t_data := Some es\<rparr>) = es"
  by (simp_all add: entries_def)

lemma insert_row_objs: "objs (insert_row k w) = objs w"
  by (simp add: insert_row_def Let_def append_body_def detach_def split: option.splits)

lemma map_update_same: "(map f xs)[k := f (xs ! k)] = map f xs"
  by (metis list_update_id map_update)

lemma insert_row_e_data: "map e_data (entries (insert_row k w)) = map e_data (entries w)"
  by (simp add: insert_row_def Let_def append_body_def detach_def entries_def map_update map_update_same
      split: option.splits)

lemma insert_loop_objs: "objs (snd (insert_loop start i w)) = objs w"
  by (induction start i w rule: insert_loop.induct) (simp add: insert_row_objs)

lemma insert_row_t_element: "t_element (insert_row k w) = t_element w"
  by (simp add: insert_row_def Let_def append_body_def detach_def split: option.splits)

lemma insert_loop_t_element: "t_element (snd (insert_loop start i w)) = t_element w"
  by (induction start i w rule: insert_loop.induct) (simp add: insert_row_t_element)

lemma insert_loop_e_data:
  "map e_data (entries (snd (insert_loop start i w))) = map e_data (entries w)"
  by (induction start i w rule: insert_loop.induct) (simp add: insert_row_e_data)

lemma priv_insertData_objs: "objs (state_of (priv_insertData start w)) = objs w"
proof -
  obtain i w1 where l: "insert_loop start 0 w = (i, w1)" by (cases "insert_loop start 0 w")
  then have "objs w1 = objs w" using insert_loop_objs [of start 0 w] by simp
  then show ?thesis using l
    by (simp add: priv_insertData_def Let_def split: option.splits)
qed

lemma priv_insertData_e_data:
  "map e_data (entries (state_of (priv_insertData start w))) = map e_data (entries w)"
proof -
  obtain i w1 where l: "insert_loop start 0 w = (i, w1)" by (cases "insert_loop start 0 w")
  then have "map e_data (entries w1) = map e_data (entries w)"
    using insert_loop_e_data [of start 0 w] by simp
  then show ?thesis using l
    by (simp add: priv_insertData_def Let_def entries_update split: option.splits)
qed

lemma start_tables_fields:
  "objs (start_tables w) = objs w" "t_data (start_tables w) = t_data w"
  "t_element (start_tables w) = t_element w" "trs (start_tables w) = trs w"
  "timers (start_tables w) = timers w" "t_headers (start_tables w) = t_headers w"
  "t_config (start_tables w) = t_config w" "t_callbacks (start_tables w) = t_callbacks w"
  by (simp_all add: start_tables_def)

lemma place_tables_fields:
  "objs (place_tables el w) = objs w" "t_data (place_tables el w) = t_data w"
  "t_element (place_tables el w) = t_element w" "trs (place_tables el w) = trs w"
  "timers (place_tables el w) = timers w" "t_headers (place_tables el w) = t_headers w"
  "t_config (place_tables el w) = t_config w" "t_callbacks (place_tables el w) = t_callbacks w"
  "t_bodyTable (place_tables el w) = t_bodyTable w"
  by (simp_all add: place_tables_def)

lemma entries_start_tables: "entries (start_tables w) = entries w"
  by (simp add: entries_def start_tables_fields)

lemma entries_place_tables: "entries (place_tables el w) = entries w"
  by (simp add: entries_def place_tables_fields)

lemma priv_updateTable_objs: "objs (state_of (priv_updateTable w)) = objs w"
  by (simp add: priv_updateTable_def Let_def priv_insertData_objs start_tables_fields
      place_tables_fields split: option.splits)

lemma priv_updateTable_e_data:
  "map e_data (entries (state_of (priv_updateTable w))) = map e_data (entries w)"
  by (simp add: priv_updateTable_def Let_def priv_insertData_e_data entries_start_tables
      entries_place_tables split: option.splits)

lemma priv_onWindowResized_state: "state_of (priv_onWindowResized lw w) = w"
  by (simp add: priv_onWindowResized_def Let_def split: option.splits)

lemma state_of_and_then_resized:
  "state_of (and_then r (priv_onWindowResized lw)) = state_of r"
  by (cases r) (simp_all add: priv_onWindowResized_state)

subsection \<open>Loading data\<close>

lemma map_of_put_same:
  "k \<in> fst ` set ps \<Longrightarrow>
     map_of (map (\<lambda>(k', v'). if k' = k then (k', v) else (k', v')) ps) k = Some v"
  by (induction ps) auto

lemma get_prop_put_prop: "get_prop (put_prop ps k v) k = Some v"
  by (simp add: get_prop_def put_prop_def map_of_put_same map_add_Some_iff
      map_of_eq_None_iff)

lemma field_put_prop: "field (put_prop ob k v) k = v"
  by (simp add: field_def get_prop_put_prop)

lemma setData_loop_objs:
  "\<exists>ext. objs (setData_loop data i w) = objs w @ ext \<and> length ext = length data - i
         \<and> list_all (\<lambda>k. field (ext ! k) rowIDColumn = JNum (Fin (of_nat (i + k + 1))))
              [0..<length ext]"
proof (induction data i w rule: setData_loop.induct)
  case (1 data i w)
  show ?case
  proof (cases "i < length data")
    case False
    then show ?thesis by simp
  next
    case True
    define datum where
      "datum = put_prop (jq_extend [] (deref (objs w) (data ! i))) rowIDColumn
                 (JNum (Fin (of_nat (i + 1))))"
    define w' where
      "w' = w\<lparr>objs := objs w @ [datum],
               t_data := Some (entries w @ [\<lparr>e_row = None, e_data = length (objs w)\<rparr>])\<rparr>"
    have step: "setData_loop data i w = setData_loop data (Suc i) w'"
      using True by (simp add: datum_def w'_def Let_def)
    from "1.IH" [OF True refl refl refl, folded datum_def, folded w'_def]
    obtain ext where e: "objs (setData_loop data (Suc i) w') = objs w' @ ext"
      and l: "length ext = length data - Suc i"
      and f: "list_all (\<lambda>k. field (ext ! k) rowIDColumn = JNum (Fin (of_nat (Suc i + k + 1))))
                [0..<length ext]"
      by blast
    have f': "list_all (\<lambda>k. field ((datum # ext) ! k) rowIDColumn = JNum (Fin (of_nat (i + k + 1))))
                [0..<length (datum # ext)]"
      unfolding list_all_iff
    proof
      fix k assume "k \<in> set [0..<length (datum # ext)]"
      then have k: "k < Suc (length ext)" by auto
      show "field ((datum # ext) ! k) rowIDColumn = JNum (Fin (of_nat (i + k + 1)))"
      proof (cases k)
        case 0
        then show ?thesis by (simp add: datum_def field_put_prop)
      next
        case (Suc j)
        then have "j < length ext" using k by simp
        then show ?thesis using f Suc by (simp add: list_all_iff)
      qed
    qed
    show ?thesis
      using e l f' True unfolding step
      by (intro exI [of _ "datum # ext"]) (simp add: w'_def)
  qed
qed

lemma setData_loop_entries:
  "entries (setData_loop data i w)
     = entries w @ map (\<lambda>k. \<lparr>e_row = None, e_data = length (objs w) + k\<rparr>) [0..<length data - i]"
proof (induction data i w rule: setData_loop.induct)
  case (1 data i w)
  show ?case
  proof (cases "i < length data")
    case False
    then show ?thesis by simp
  next
    case True
    define datum where
      "datum = put_prop (jq_extend [] (deref (objs w) (data ! i))) rowIDColumn
                 (JNum (Fin (of_nat (i + 1))))"
    define w' where
      "w' = w\<lparr>objs := objs w @ [datum],
               t_data := Some (entries w @ [\<lparr>e_row = None, e_data = length (objs w)\<rparr>])\<rparr>"
    have step: "setData_loop data i w = setData_loop data (Suc i) w'"
      using True by (simp add: datum_def w'_def Let_def)
    have n: "[0..<length data - i] = 0 # map Suc [0..<length data - Suc i]"
      using True by (metis Suc_diff_Suc map_Suc_upt upt_conv_Cons zero_less_diff)
    have "entries (setData_loop data (Suc i) w')
            = entries w' @ map (\<lambda>k. \<lparr>e_row = None, e_data = length (objs w') + k\<rparr>)
                             [0..<length data - Suc i]"
      using "1.IH" [OF True refl refl refl, folded datum_def, folded w'_def] .
    then show ?thesis
      unfolding step n by (simp add: w'_def entries_update comp_def)
  qed
qed

lemma setData_loop_t_data:
  "t_data w \<noteq> None \<Longrightarrow> t_data (setData_loop data i w) \<noteq> None"
  by (induction data i w rule: setData_loop.induct) (simp add: Let_def)

lemma setData_loop_fields:
  "t_element (setData_loop data i w) = t_element w \<and> timers (setData_loop data i w) = timers w
   \<and> t_headers (setData_loop data i w) = t_headers w
   \<and> t_callbacks (setData_loop data i w) = t_callbacks w
   \<and> t_config (setData_loop data i w) = t_config w \<and> trs (setData_loop data i w) = trs w"
  by (induction data i w rule: setData_loop.induct) (simp add: Let_def)

lemma priv_setData_objs:
  "\<exists>ext. objs (priv_setData data w) = objs w @ ext \<and> length ext = length data
         \<and> list_all (\<lambda>k. field (ext ! k) rowIDColumn = JNum (Fin (of_nat (k + 1))))
              [0..<length ext]"
  using setData_loop_objs [of data 0 "w\<lparr>t_data := Some []\<rparr>"]
  by (simp add: priv_setData_def)

lemma priv_setData_entries:
  "entries (priv_setData data w)
     = map (\<lambda>k. \<lparr>e_row = None, e_data = length (objs w) + k\<rparr>) [0..<length data]"
  using setData_loop_entries [of data 0 "w\<lparr>t_data := Some []\<rparr>"]
  by (simp add: priv_setData_def entries_update)

lemma priv_setData_t_data:
  "t_data (priv_setData data w) = Some (entries (priv_setData data w))"
  using setData_loop_t_data [of "w\<lparr>t_data := Some []\<rparr>" data 0]
  by (auto simp: priv_setData_def entries_def)

lemma priv_setData_fields:
  "t_element (priv_setData data w) = t_element w" "timers (priv_setData data w) = timers w"
  "t_headers (priv_setData data w) = t_headers w"
  "t_callbacks (priv_setData data w) = t_callbacks w"
  "t_config (priv_setData data w) = t_config w" "trs (priv_setData data w) = trs w"
  using setData_loop_fields [of data 0 "w\<lparr>t_data := Some []\<rparr>"]
  by (simp_all add: priv_setData_def)

lemma setData_objs: "objs (state_of (setData lw data w)) = objs (priv_setData data w)"
  by (simp add: setData_def state_of_and_then_resized priv_updateTable_objs)

lemma setData_e_data:
  "map e_data (entries (state_of (setData lw data w)))
     = map (\<lambda>k. length (objs w) + k) [0..<length data]"
  by (simp add: setData_def state_of_and_then_resized priv_updateTable_e_data
      priv_setData_entries comp_def)

text \<open>
  C6. After \<open>setData\<close> on any instance, whatever it held before, the records of the row
  entries carry, in order, the row-ids 1, 2, ..., n, where n is the length of the array
  supplied: the id of an entry is its 1-based position in that array.
\<close>

theorem setData_assigns_row_ids:
  "map (\<lambda>e. field (deref (objs (state_of (setData lw data w))) (e_data e)) rowIDColumn)
       (entries (state_of (setData lw data w)))
     = map (\<lambda>i. JNum (Fin (of_nat i))) [1..<Suc (length data)]"
proof -
  let ?w' = "state_of (setData lw data w)"
  obtain ext where e: "objs ?w' = objs w @ ext" and l: "length ext = length data"
    and f: "list_all (\<lambda>k. field (ext ! k) rowIDColumn = JNum (Fin (of_nat (k + 1))))
              [0..<length ext]"
    using priv_setData_objs [of data w] by (auto simp: setData_objs)
  have "map (\<lambda>e. field (deref (objs ?w') (e_data e)) rowIDColumn) (entries ?w')
          = map (\<lambda>a. field (deref (objs ?w') a) rowIDColumn) (map e_data (entries ?w'))"
    by (simp add: comp_def)
  also have "\<dots> = map (\<lambda>k. field (deref (objs ?w') (length (objs w) + k)) rowIDColumn)
                      [0..<length data]"
    by (simp add: setData_e_data comp_def)
  also have "\<dots> = map (\<lambda>k. JNum (Fin (of_nat (k + 1)))) [0..<length data]"
    using f l by (auto simp: e deref_def list_all_iff)
  also have "\<dots> = map (\<lambda>i. JNum (Fin (of_nat i))) (map Suc [0..<length data])"
    by (simp add: comp_def)
  also have "map Suc [0..<length data] = [1..<Suc (length data)]"
    by (simp add: map_Suc_upt)
  finally show ?thesis .
qed

lemma grid_table_fields:
  "t_element grid_table = Some [0]" "timers grid_table = []" "objs grid_table = two_records"
  "t_data grid_table = None" "trs grid_table = []"
  by (simp_all add: grid_table_def setElement_total dollar_def new_table_def)

lemma deref_append: "a < length h \<Longrightarrow> deref (h @ ext) a = deref h a"
  by (simp add: deref_def nth_append)

lemma setData_loop_copies:
  "list_all (\<lambda>a. a < length (objs w)) data \<Longrightarrow>
     objs (setData_loop data i w)
       = objs w @ map (\<lambda>j. row_record (deref (objs w) (data ! j)) j) [i..<length data]"
proof (induction data i w rule: setData_loop.induct)
  case (1 data i w)
  show ?case
  proof (cases "i < length data")
    case False
    then show ?thesis by simp
  next
    case True
    define datum where
      "datum = put_prop (jq_extend [] (deref (objs w) (data ! i))) rowIDColumn
                 (JNum (Fin (of_nat (i + 1))))"
    define w' where
      "w' = w\<lparr>objs := objs w @ [datum],
               t_data := Some (entries w @ [\<lparr>e_row = None, e_data = length (objs w)\<rparr>])\<rparr>"
    have step: "setData_loop data i w = setData_loop data (Suc i) w'"
      using True by (simp add: datum_def w'_def Let_def)
    have valid: "list_all (\<lambda>a. a < length (objs w')) data"
      using "1.prems" by (auto simp: w'_def list_all_iff)
    have ih: "objs (setData_loop data (Suc i) w')
                = objs w' @ map (\<lambda>j. row_record (deref (objs w') (data ! j)) j) [Suc i..<length data]"
      using "1.IH" [OF True refl refl refl, folded datum_def, folded w'_def] valid by simp
    have same: "map (\<lambda>j. row_record (deref (objs w') (data ! j)) j) [Suc i..<length data]
                  = map (\<lambda>j. row_record (deref (objs w) (data ! j)) j) [Suc i..<length data]"
      using "1.prems" by (auto simp: w'_def list_all_length deref_append)
    have d: "datum = row_record (deref (objs w) (data ! i)) i"
      by (simp add: datum_def row_record_def)
    show ?thesis
      unfolding step ih same using True by (simp add: w'_def d upt_conv_Cons)
  qed
qed

lemma setData_copies:
  assumes "list_all (\<lambda>a. a < length (objs w)) data"
  shows "map (deref (objs (state_of (setData lw data w))))
             (records_of (state_of (setData lw data w)))
           = map (\<lambda>i. row_record (deref (objs w) (data ! i)) i) [0..<length data]"
proof -
  let ?w' = "state_of (setData lw data w)"
  have o: "objs ?w' = objs w @ map (\<lambda>j. row_record (deref (objs w) (data ! j)) j) [0..<length data]"
    using setData_loop_copies [of "w\<lparr>t_data := Some []\<rparr>" data 0] assms
    by (simp add: setData_objs priv_setData_def)
  have r: "records_of ?w' = map (\<lambda>k. length (objs w) + k) [0..<length data]"
    by (simp add: records_of_def setData_e_data)
  show ?thesis
    unfolding r o by (simp add: deref_def comp_def)
qed

text \<open>
  C10. \<open>setData\<close> leaves every record object that existed before the call as it was (the
  heap before the call is a prefix of the heap after it), and the record of every row
  entry is an object the call created. When the array holds existing records, the record
  of the entry at index \<open>i\<close> is a copy of the properties of the \<open>i\<close>-th record supplied,
  with the row-id \<open>i + 1\<close> set on the copy.
\<close>

theorem setData_copies_the_records:
  "take (length (objs w)) (objs (state_of (setData lw data w))) = objs w
   \<and> list_all (\<lambda>a. length (objs w) \<le> a) (records_of (state_of (setData lw data w)))
   \<and> (list_all (\<lambda>a. a < length (objs w)) data \<longrightarrow>
        map (deref (objs (state_of (setData lw data w))))
            (records_of (state_of (setData lw data w)))
          = map (\<lambda>i. row_record (deref (objs w) (data ! i)) i) [0..<length data])"
proof -
  let ?w' = "state_of (setData lw data w)"
  obtain ext where e: "objs ?w' = objs w @ ext"
    using priv_setData_objs [of data w] by (auto simp: setData_objs)
  have "list_all (\<lambda>a. length (objs w) \<le> a) (records_of ?w')"
    by (simp add: records_of_def setData_e_data list_all_iff)
  then show ?thesis using e setData_copies [of w data lw] by simp
qed

theorem setData_copies_the_records_witness:
  "list_all (\<lambda>a. a < length (objs grid_table)) [0, 1]
   \<and> take (length two_records) (objs (state_of (setData no_lw [0, 1] grid_table))) = two_records
   \<and> map (deref (objs (state_of (setData no_lw [0, 1] grid_table))))
         (records_of (state_of (setData no_lw [0, 1] grid_table)))
       = [[(''v'', JStr ''10''), (''_table_rowID'', JNum (Fin 1))],
          [(''v'', JStr ''2''), (''_table_rowID'', JNum (Fin 2))]]"
  using setData_copies_the_records [of grid_table no_lw "[0, 1]"]
  by (simp add: grid_table_fields two_records_def row_record_def jq_extend_def put_prop_def
      deref_def rowIDColumn_def)

subsection \<open>Rendering in batches\<close>

lemma insert_row_new:
  assumes "t_data w = Some es" "k < length es" "e_row (es ! k) = None" "t_bodyTable w = Some bt"
  shows "t_data (insert_row k w) = Some (es[k := (es ! k)\<lparr>e_row := Some (length (trs w))\<rparr>])"
    and "t_bodyTable (insert_row k w) = Some (bt\<lparr>tbody := tbody bt @ [length (trs w)]\<rparr>)"
    and "length (trs (insert_row k w)) = Suc (length (trs w))"
    and "t_headerTable (insert_row k w) = t_headerTable w"
    and "timers (insert_row k w) = timers w"
  using assms by (simp_all add: insert_row_def Let_def entries_def append_body_def)

lemma insert_loop_fresh:
  "\<lbrakk>insert_loop start i w = (i', w'); t_data w = Some es; t_bodyTable w = Some bt;
    \<forall>j. start + i \<le> j \<and> j < length es \<longrightarrow> e_row (es ! j) = None\<rbrakk>
   \<Longrightarrow> \<exists>es' bt'.
         i' = i + min (INSERT_BATCH_LIMIT - i) (length es - (start + i))
         \<and> t_data w' = Some es' \<and> length es' = length es
         \<and> t_bodyTable w' = Some bt'
         \<and> length (tbody bt') = length (tbody bt) + (i' - i)
         \<and> (\<forall>j. start + i' \<le> j \<and> j < length es \<longrightarrow> e_row (es' ! j) = None)
         \<and> (\<forall>j. start + i \<le> j \<and> j < start + i'
                \<longrightarrow> (\<exists>a. e_row (es' ! j) = Some a \<and> a < length (trs w')))
         \<and> (\<forall>j. j < start + i \<longrightarrow> es' ! j = es ! j)
         \<and> length (trs w) \<le> length (trs w')
         \<and> t_headerTable w' = t_headerTable w
         \<and> timers w' = timers w"
proof (induction start i w arbitrary: es bt rule: insert_loop.induct)
  case (1 start i w)
  have len: "length (entries w) = length es" using "1.prems"(2) by (simp add: entries_def)
  show ?case
  proof (cases "i < INSERT_BATCH_LIMIT \<and> start + i < length es")
    case False
    then have "insert_loop start i w = (i, w)" using len by simp
    then have "i' = i" "w' = w" using "1.prems"(1) by simp_all
    then show ?thesis using False "1.prems" by auto
  next
    case True
    let ?k = "start + i"
    let ?w1 = "insert_row ?k w"
    let ?es1 = "es[?k := (es ! ?k)\<lparr>e_row := Some (length (trs w))\<rparr>]"
    let ?bt1 = "bt\<lparr>tbody := tbody bt @ [length (trs w)]\<rparr>"
    have fresh: "e_row (es ! ?k) = None" using True "1.prems"(4) by simp
    have k: "?k < length es" using True by simp
    note r = insert_row_new [OF "1.prems"(2) k fresh "1.prems"(3)]
    have step: "insert_loop start (Suc i) ?w1 = (i', w')"
      using True len "1.prems"(1) by simp
    have fresh1: "\<forall>j. start + Suc i \<le> j \<and> j < length ?es1 \<longrightarrow> e_row (?es1 ! j) = None"
      using "1.prems"(4) by simp
    from "1.IH" [OF _ step r(1) r(2) fresh1] True len
    obtain es' bt' where
      i': "i' = Suc i + min (INSERT_BATCH_LIMIT - Suc i) (length ?es1 - (start + Suc i))"
      and d: "t_data w' = Some es'" "length es' = length ?es1"
      and b: "t_bodyTable w' = Some bt'"
             "length (tbody bt') = length (tbody ?bt1) + (i' - Suc i)"
      and f: "\<forall>j. start + i' \<le> j \<and> j < length ?es1 \<longrightarrow> e_row (es' ! j) = None"
      and g: "\<forall>j. start + Suc i \<le> j \<and> j < start + i'
                \<longrightarrow> (\<exists>a. e_row (es' ! j) = Some a \<and> a < length (trs w'))"
      and u: "\<forall>j. j < start + Suc i \<longrightarrow> es' ! j = ?es1 ! j"
      and t: "length (trs ?w1) \<le> length (trs w')"
      and h: "t_headerTable w' = t_headerTable ?w1" "timers w' = timers ?w1"
      by auto
    have i'_eq: "i' = i + min (INSERT_BATCH_LIMIT - i) (length es - (start + i))"
      using i' True by auto
    have i'_gt: "Suc i \<le> i'" using i' by simp
    have at_k: "\<exists>a. e_row (es' ! ?k) = Some a \<and> a < length (trs w')"
    proof -
      have "es' ! ?k = ?es1 ! ?k" using u by simp
      then have "e_row (es' ! ?k) = Some (length (trs w))" using k by simp
      moreover have "length (trs w) < length (trs w')" using t r(3) by simp
      ultimately show ?thesis by simp
    qed
    have g': "\<forall>j. start + i \<le> j \<and> j < start + i'
                \<longrightarrow> (\<exists>a. e_row (es' ! j) = Some a \<and> a < length (trs w'))"
    proof (intro allI impI)
      fix j assume j: "start + i \<le> j \<and> j < start + i'"
      show "\<exists>a. e_row (es' ! j) = Some a \<and> a < length (trs w')"
      proof (cases "j = ?k")
        case True
        then show ?thesis using at_k by simp
      next
        case False
        then have "start + Suc i \<le> j \<and> j < start + i'" using j by simp
        then show ?thesis using g by blast
      qed
    qed
    have u': "\<forall>j. j < start + i \<longrightarrow> es' ! j = es ! j"
      using u by simp
    have "length (tbody bt') = length (tbody bt) + (i' - i)"
      using b(2) i'_gt by simp
    moreover have "length (trs w) \<le> length (trs w')" using t r(3) by simp
    ultimately show ?thesis
      using i'_eq d b(1) f g' u' h r(4) r(5) by simp
  qed
qed

lemma priv_insertData_batch:
  assumes r: "rendering n s w" and s: "s < n"
  shows "\<exists>w'. priv_insertData s w = Done w'
           \<and> rendering n (min n (s + INSERT_BATCH_LIMIT)) w'
           \<and> length (header_rows w') = Suc (length (header_rows w))
           \<and> timers w' = timers w @ (if s + INSERT_BATCH_LIMIT < n then [s + INSERT_BATCH_LIMIT] else [])
           \<and> t_element w' = t_element w"
proof -
  from r obtain bt ht es where
    bt: "t_bodyTable w = Some bt" and ht: "t_headerTable w = Some ht"
    and es: "t_data w = Some es" "length es = n" and lb: "length (tbody bt) = s"
    and fresh: "\<forall>j. s \<le> j \<and> j < n \<longrightarrow> e_row (es ! j) = None"
    by (auto simp: rendering_def)
  obtain i w1 where l: "insert_loop s 0 w = (i, w1)" by (cases "insert_loop s 0 w")
  have fresh0: "\<forall>j. s + 0 \<le> j \<and> j < length es \<longrightarrow> e_row (es ! j) = None"
    using fresh es(2) by simp
  from insert_loop_fresh [OF l es(1) bt fresh0]
  obtain es' bt' where
    i: "i = min INSERT_BATCH_LIMIT (n - s)"
    and d: "t_data w1 = Some es'" "length es' = n"
    and b: "t_bodyTable w1 = Some bt'" "length (tbody bt') = s + i"
    and f: "\<forall>j. s + i \<le> j \<and> j < n \<longrightarrow> e_row (es' ! j) = None"
    and g: "\<forall>j. s \<le> j \<and> j < s + i \<longrightarrow> (\<exists>a. e_row (es' ! j) = Some a \<and> a < length (trs w1))"
    and h: "t_headerTable w1 = Some ht" "timers w1 = timers w"
    using es(2) lb ht by auto
  have ipos: "0 < i" using i s by (simp add: INSERT_BATCH_LIMIT_def)
  then obtain a where a: "e_row (es' ! s) = Some a" "a < length (trs w1)" using g by auto
  have e1: "entries w1 = es'" using d(1) by (simp add: entries_def)
  have el: "t_element w1 = t_element w"
    using insert_loop_t_element [of s 0 w] l by simp
  let ?w2 = "w1\<lparr>trs := trs w1 @ [clone (trs w1 ! a)],
                 t_headerTable := Some (ht\<lparr>tbody := tbody ht @ [length (trs w1)]\<rparr>)\<rparr>"
  let ?w' = "if s + i < n then ?w2\<lparr>timers := timers ?w2 @ [s + i]\<rparr> else ?w2"
  have res: "priv_insertData s w = Done ?w'"
    using bt es l e1 d a h s
    by (simp add: priv_insertData_def Let_def tr_at_def entries_update)
  have si: "s + i = min n (s + INSERT_BATCH_LIMIT)" using i s by auto
  have r': "rendering n (s + i) ?w'"
    using d b f by (auto simp: rendering_def)
  have hr: "length (header_rows ?w') = Suc (length (header_rows w))"
    using ht by (simp add: header_rows_def)
  have tm: "timers ?w' = timers w @ (if s + INSERT_BATCH_LIMIT < n then [s + INSERT_BATCH_LIMIT] else [])"
    using h(2) i s by (auto simp: min_def)
  have "t_element ?w' = t_element w" using el by simp
  then show ?thesis using res r' hr tm unfolding si by blast
qed

lemma priv_updateTable_fresh:
  assumes el: "t_element w = Some el" and es: "t_data w = Some es"
    and fresh: "list_all (\<lambda>e. e_row e = None) es"
  shows "\<exists>w'. priv_updateTable w = Done w'
           \<and> rendering (length es) (min (length es) INSERT_BATCH_LIMIT) w'
           \<and> length (header_rows w') = (if es = [] then 0 else 1)
           \<and> timers w' = timers w @ (if INSERT_BATCH_LIMIT < length es then [INSERT_BATCH_LIMIT] else [])
           \<and> t_element w' = Some el"
proof -
  let ?w2 = "place_tables el (start_tables w)"
  have r0: "rendering (length es) 0 ?w2"
    using es fresh
    by (simp add: rendering_def place_tables_def start_tables_def TABLE_TEMPLATE_def list_all_length)
  have hr0: "header_rows ?w2 = []"
    by (simp add: header_rows_def place_tables_def start_tables_def TABLE_TEMPLATE_def)
  have tm0: "timers ?w2 = timers w" "t_element ?w2 = Some el"
    using el by (simp_all add: place_tables_fields start_tables_fields)
  have e2: "entries ?w2 = es"
    using es by (simp add: entries_def place_tables_fields start_tables_fields)
  show ?thesis
  proof (cases "es = []")
    case True
    then have "priv_updateTable w = Done ?w2"
      using el e2 by (simp add: priv_updateTable_def Let_def start_tables_fields)
    then show ?thesis using True r0 hr0 tm0 by simp
  next
    case False
    then have u: "priv_updateTable w = priv_insertData 0 ?w2"
      using el e2 by (simp add: priv_updateTable_def Let_def start_tables_fields)
    from False have "0 < length es" by simp
    from priv_insertData_batch [OF r0 this] show ?thesis
      using False hr0 tm0 unfolding u by auto
  qed
qed

lemma setData_starts_render:
  assumes el: "t_element w = Some el"
  shows "rendering (length data) (min (length data) INSERT_BATCH_LIMIT) (state_of (setData lw data w))
         \<and> length (header_rows (state_of (setData lw data w))) = (if data = [] then 0 else 1)
         \<and> timers (state_of (setData lw data w))
             = timers w @ (if INSERT_BATCH_LIMIT < length data then [INSERT_BATCH_LIMIT] else [])
         \<and> t_element (state_of (setData lw data w)) = Some el"
proof -
  let ?v = "priv_setData data w"
  have 1: "t_element ?v = Some el" using el by (simp add: priv_setData_fields)
  have 2: "t_data ?v = Some (entries ?v)" by (rule priv_setData_t_data)
  have 3: "list_all (\<lambda>e. e_row e = None) (entries ?v)"
    by (simp add: priv_setData_entries list_all_iff)
  have 4: "length (entries ?v) = length data" by (simp add: priv_setData_entries)
  from priv_updateTable_fresh [OF 1 2 3] show ?thesis
    unfolding 4 by (auto simp: setData_def state_of_and_then_resized priv_setData_fields
        priv_setData_entries)
qed

lemma rendering_timers: "rendering n s (w\<lparr>timers := ts\<rparr>) = rendering n s w"
  by (simp add: rendering_def)

lemma header_rows_timers: "header_rows (w\<lparr>timers := ts\<rparr>) = header_rows w"
  by (simp add: header_rows_def)

lemma rendering_body_rows: "rendering n s w \<Longrightarrow> length (body_rows w) = s"
  by (auto simp: rendering_def body_rows_def)

lemma fire_n_Suc: "fire_n (Suc k) w = state_of (fire_timer (fire_n k w))"
  by (simp add: fire_n_def)

lemma fire_n_render:
  assumes "rendering n (min n INSERT_BATCH_LIMIT) w"
    and "timers w = (if INSERT_BATCH_LIMIT < n then [INSERT_BATCH_LIMIT] else [])"
    and "length (header_rows w) = (if n = 0 then 0 else 1)"
  shows "rendering n (min n (INSERT_BATCH_LIMIT * Suc k)) (fire_n k w)
         \<and> timers (fire_n k w)
             = (if INSERT_BATCH_LIMIT * Suc k < n then [INSERT_BATCH_LIMIT * Suc k] else [])
         \<and> length (header_rows (fire_n k w))
             = min (Suc k) ((n + (INSERT_BATCH_LIMIT - 1)) div INSERT_BATCH_LIMIT)"
proof (induction k)
  case 0
  show ?case using assms by (simp add: fire_n_def INSERT_BATCH_LIMIT_def; arith)
next
  case (Suc k)
  let ?v = "fire_n k w"
  let ?s = "INSERT_BATCH_LIMIT * Suc k"
  from Suc.IH have r: "rendering n (min n ?s) ?v"
    and t: "timers ?v = (if ?s < n then [?s] else [])"
    and h: "length (header_rows ?v) = min (Suc k) ((n + (INSERT_BATCH_LIMIT - 1)) div INSERT_BATCH_LIMIT)"
    by blast+
  show ?case
  proof (cases "?s < n")
    case False
    then have "fire_n (Suc k) w = ?v" using t by (simp add: fire_n_Suc fire_timer_def)
    moreover have "min n ?s = n" "min n (INSERT_BATCH_LIMIT * Suc (Suc k)) = n"
      using False by simp_all
    moreover have "min (Suc k) ((n + (INSERT_BATCH_LIMIT - 1)) div INSERT_BATCH_LIMIT)
                     = min (Suc (Suc k)) ((n + (INSERT_BATCH_LIMIT - 1)) div INSERT_BATCH_LIMIT)"
      using False by (simp add: INSERT_BATCH_LIMIT_def; arith)
    ultimately show ?thesis using r t h False by simp
  next
    case True
    then have r': "rendering n ?s (?v\<lparr>timers := []\<rparr>)"
      using r by (simp add: rendering_timers min_def)
    from priv_insertData_batch [OF r' True]
    obtain w' where f: "priv_insertData ?s (?v\<lparr>timers := []\<rparr>) = Done w'"
      and r2: "rendering n (min n (?s + INSERT_BATCH_LIMIT)) w'"
      and h2: "length (header_rows w') = Suc (length (header_rows ?v))"
      and t2: "timers w' = (if ?s + INSERT_BATCH_LIMIT < n then [?s + INSERT_BATCH_LIMIT] else [])"
      by (auto simp: header_rows_timers)
    have e: "fire_n (Suc k) w = w'" using t True f by (simp add: fire_n_Suc fire_timer_def)
    have s2: "?s + INSERT_BATCH_LIMIT = INSERT_BATCH_LIMIT * Suc (Suc k)" by simp
    have "Suc (min (Suc k) ((n + (INSERT_BATCH_LIMIT - 1)) div INSERT_BATCH_LIMIT))
            = min (Suc (Suc k)) ((n + (INSERT_BATCH_LIMIT - 1)) div INSERT_BATCH_LIMIT)"
      using True by (simp add: INSERT_BATCH_LIMIT_def; arith)
    then show ?thesis using r2 h2 t2 h unfolding e s2 by simp
  qed
qed

lemma render_timers:
  assumes "t_element w = Some el" and "timers w = []"
  shows "timers (fire_n k (state_of (setData lw data w)))
           = (if INSERT_BATCH_LIMIT * Suc k < length data then [INSERT_BATCH_LIMIT * Suc k] else [])"
proof -
  let ?w0 = "state_of (setData lw data w)"
  from setData_starts_render [OF assms(1), where lw = lw and data = data]
  have 1: "rendering (length data) (min (length data) INSERT_BATCH_LIMIT) ?w0"
    and 2: "timers ?w0 = (if INSERT_BATCH_LIMIT < length data then [INSERT_BATCH_LIMIT] else [])"
    and 3: "length (header_rows ?w0) = (if length data = 0 then 0 else 1)"
    using assms(2) by auto
  from fire_n_render [OF 1 2 3, of k] show ?thesis by blast
qed

text \<open>
  C5. On an instance bound to a container and with no render pending, \<open>setData\<close> with n
  records places the first batch at once and defers the rest: after the call and k
  deferred tasks the body holds min(n, 500(k+1)) rows, a further task (starting at
  500(k+1)) is pending exactly while rows remain, and no task is pending once
  ceil(n/500) batches have run. Each batch therefore adds at most 500 rows.
\<close>

theorem render_in_batches:
  assumes "t_element w = Some el" and "timers w = []"
  shows "length (body_rows (fire_n k (state_of (setData lw data w))))
           = min (length data) (INSERT_BATCH_LIMIT * Suc k)
         \<and> timers (fire_n k (state_of (setData lw data w)))
             = (if INSERT_BATCH_LIMIT * Suc k < length data then [INSERT_BATCH_LIMIT * Suc k] else [])
         \<and> (timers (fire_n k (state_of (setData lw data w))) = [])
             = ((length data + 499) div 500 \<le> Suc k)"
proof -
  let ?w0 = "state_of (setData lw data w)"
  from setData_starts_render [OF assms(1), where lw = lw and data = data]
  have 1: "rendering (length data) (min (length data) INSERT_BATCH_LIMIT) ?w0"
    and 2: "timers ?w0 = (if INSERT_BATCH_LIMIT < length data then [INSERT_BATCH_LIMIT] else [])"
    and 3: "length (header_rows ?w0) = (if length data = 0 then 0 else 1)"
    using assms(2) by auto
  from fire_n_render [OF 1 2 3, of k]
  have r: "rendering (length data) (min (length data) (INSERT_BATCH_LIMIT * Suc k)) (fire_n k ?w0)"
    and t: "timers (fire_n k ?w0)
              = (if INSERT_BATCH_LIMIT * Suc k < length data then [INSERT_BATCH_LIMIT * Suc k] else [])"
    by blast+
  have "(timers (fire_n k ?w0) = []) = ((length data + 499) div 500 \<le> Suc k)"
    unfolding t by (simp add: INSERT_BATCH_LIMIT_def; arith)
  then show ?thesis using rendering_body_rows [OF r] t by simp
qed

theorem render_in_batches_witness:
  "t_element grid_table = Some [0] \<and> timers grid_table = []
   \<and> length (body_rows (fire_n 0 (state_of (setData no_lw rows_1200 grid_table)))) = 500
   \<and> timers (fire_n 0 (state_of (setData no_lw rows_1200 grid_table))) = [500]
   \<and> length (body_rows (fire_n 1 (state_of (setData no_lw rows_1200 grid_table)))) = 1000
   \<and> timers (fire_n 1 (state_of (setData no_lw rows_1200 grid_table))) = [1000]
   \<and> length (body_rows (fire_n 2 (state_of (setData no_lw rows_1200 grid_table)))) = 1200
   \<and> timers (fire_n 2 (state_of (setData no_lw rows_1200 grid_table))) = []"
  using render_in_batches [of grid_table "[0]" 0 no_lw rows_1200]
    render_in_batches [of grid_table "[0]" 1 no_lw rows_1200]
    render_in_batches [of grid_table "[0]" 2 no_lw rows_1200]
  by (simp add: grid_table_fields rows_1200_def INSERT_BATCH_LIMIT_def)

lemma render_header_rows:
  assumes "t_element w = Some el" and "timers w = []"
  shows "length (header_rows (fire_n k (state_of (setData lw data w))))
           = min (Suc k) ((length data + 499) div 500)"
proof -
  let ?w0 = "state_of (setData lw data w)"
  from setData_starts_render [OF assms(1), where lw = lw and data = data]
  have 1: "rendering (length data) (min (length data) INSERT_BATCH_LIMIT) ?w0"
    and 2: "timers ?w0 = (if INSERT_BATCH_LIMIT < length data then [INSERT_BATCH_LIMIT] else [])"
    and 3: "length (header_rows ?w0) = (if length data = 0 then 0 else 1)"
    using assms(2) by auto
  from fire_n_render [OF 1 2 3, of k] show ?thesis by (simp add: INSERT_BATCH_LIMIT_def)
qed

text \<open>
  C4. A render of 1200 rows takes three batches; once the last has run (no task is
  pending) the header table holds three cloned body rows, one per batch.
\<close>

theorem header_gets_a_clone_per_batch:
  "length (header_rows (fire_n 2 (state_of (setData no_lw rows_1200 grid_table)))) = 3
   \<and> timers (fire_n 2 (state_of (setData no_lw rows_1200 grid_table))) = []"
  using render_header_rows [of grid_table "[0]" 2 no_lw rows_1200]
    render_timers [of grid_table "[0]" 2 no_lw rows_1200]
  by (simp add: grid_table_fields rows_1200_def INSERT_BATCH_LIMIT_def)

subsection \<open>Options\<close>

lemma insert_row_frame:
  "t_headers (insert_row k w) = t_headers w \<and> t_callbacks (insert_row k w) = t_callbacks w
   \<and> t_config (insert_row k w) = t_config w \<and> mount (insert_row k w) = mount w"
  by (simp add: insert_row_def Let_def append_body_def detach_def split: option.splits)

lemma insert_loop_frame:
  "t_headers (snd (insert_loop start i w)) = t_headers w
   \<and> t_callbacks (snd (insert_loop start i w)) = t_callbacks w
   \<and> t_config (snd (insert_loop start i w)) = t_config w
   \<and> mount (snd (insert_loop start i w)) = mount w"
  by (induction start i w rule: insert_loop.induct) (simp add: insert_row_frame)

lemma priv_insertData_frame:
  "t_headers (state_of (priv_insertData start w)) = t_headers w
   \<and> t_callbacks (state_of (priv_insertData start w)) = t_callbacks w
   \<and> t_config (state_of (priv_insertData start w)) = t_config w
   \<and> t_element (state_of (priv_insertData start w)) = t_element w
   \<and> mount (state_of (priv_insertData start w)) = mount w"
proof -
  obtain i w1 where l: "insert_loop start 0 w = (i, w1)" by (cases "insert_loop start 0 w")
  then have "t_headers w1 = t_headers w" "t_callbacks w1 = t_callbacks w"
    "t_config w1 = t_config w" "t_element w1 = t_element w" "mount w1 = mount w"
    using insert_loop_frame [of start 0 w] insert_loop_t_element [of start 0 w] by simp_all
  then show ?thesis using l
    by (simp add: priv_insertData_def Let_def split: option.splits)
qed

lemma priv_updateTable_frame:
  "t_headers (state_of (priv_updateTable w)) = t_headers w
   \<and> t_callbacks (state_of (priv_updateTable w)) = t_callbacks w
   \<and> t_config (state_of (priv_updateTable w)) = t_config w
   \<and> t_element (state_of (priv_updateTable w)) = t_element w"
  by (simp add: priv_updateTable_def Let_def priv_insertData_frame start_tables_fields
      place_tables_fields split: option.splits)

lemma setOpts_state:
  "state_of (snd (setOpts S lw opts w))
     = state_of (priv_updateTable (priv_mergeConfig (o_config opts)
         ((case o_data opts of None \<Rightarrow> id | Some d \<Rightarrow> priv_setData d)
           ((case o_callbacks opts of None \<Rightarrow> id | Some cbs \<Rightarrow> priv_setCallbacks cbs)
             ((case o_headers opts of None \<Rightarrow> id | Some hs \<Rightarrow> priv_setHeaders S hs) w)))))"
  by (simp add: setOpts_def Let_def state_of_and_then_resized split: option.splits)

lemma setOpts_opts:
  "fst (setOpts S lw opts w) = opts\<lparr>o_headers := None, o_callbacks := None, o_data := None\<rparr>"
  by (simp add: setOpts_def Let_def split: option.splits)

lemma priv_setHeaders_fields:
  "t_headers (priv_setHeaders S hs w) = Some (map (extend_column (DEFAULT_COLUMN_CONFIG S)) hs)"
  "t_callbacks (priv_setHeaders S hs w) = t_callbacks w"
  "t_config (priv_setHeaders S hs w) = t_config w"
  "objs (priv_setHeaders S hs w) = objs w"
  "entries (priv_setHeaders S hs w) = entries w"
  by (simp_all add: priv_setHeaders_def entries_def)

lemma priv_setCallbacks_fields:
  "t_headers (priv_setCallbacks cbs w) = t_headers w"
  "t_callbacks (priv_setCallbacks cbs w) = jq_extend_props (jq_extend_props [] (t_callbacks w)) cbs"
  "t_config (priv_setCallbacks cbs w) = t_config w"
  "objs (priv_setCallbacks cbs w) = objs w"
  "entries (priv_setCallbacks cbs w) = entries w"
  by (simp_all add: priv_setCallbacks_def entries_def)

lemma priv_mergeConfig_fields:
  "t_headers (priv_mergeConfig c w) = t_headers w"
  "t_callbacks (priv_mergeConfig c w) = t_callbacks w"
  "t_config (priv_mergeConfig c w) = jq_extend (t_config w) c"
  "objs (priv_mergeConfig c w) = objs w"
  "entries (priv_mergeConfig c w) = entries w"
  by (simp_all add: priv_mergeConfig_def entries_def)

lemma setOpts_without_keys:
  assumes "o_headers opts = None" "o_callbacks opts = None" "o_data opts = None"
  shows "fst (setOpts S lw opts w) = opts"
    and "t_headers (state_of (snd (setOpts S lw opts w))) = t_headers w"
    and "t_callbacks (state_of (snd (setOpts S lw opts w))) = t_callbacks w"
    and "map e_data (entries (state_of (snd (setOpts S lw opts w)))) = map e_data (entries w)"
    and "objs (state_of (snd (setOpts S lw opts w))) = objs w"
    and "t_config (state_of (snd (setOpts S lw opts w))) = jq_extend (t_config w) (o_config opts)"
  using assms
  by (simp_all add: setOpts_opts setOpts_state priv_updateTable_frame priv_updateTable_e_data
      priv_updateTable_objs priv_mergeConfig_fields)

lemma setOpts_applies:
  "t_headers (state_of (snd (setOpts S lw opts w)))
     = (case o_headers opts of None \<Rightarrow> t_headers w
        | Some hs \<Rightarrow> Some (map (extend_column (DEFAULT_COLUMN_CONFIG S)) hs))"
  "t_callbacks (state_of (snd (setOpts S lw opts w)))
     = (case o_callbacks opts of None \<Rightarrow> t_callbacks w
        | Some cbs \<Rightarrow> jq_extend_props (jq_extend_props [] (t_callbacks w)) cbs)"
  "map e_data (entries (state_of (snd (setOpts S lw opts w))))
     = (case o_data opts of None \<Rightarrow> map e_data (entries w)
        | Some d \<Rightarrow> map (\<lambda>k. length (objs w) + k) [0..<length d])"
  "t_config (state_of (snd (setOpts S lw opts w))) = jq_extend (t_config w) (o_config opts)"
  by (simp_all add: setOpts_state priv_updateTable_frame priv_updateTable_e_data
      priv_mergeConfig_fields priv_setData_fields priv_setData_entries
      priv_setCallbacks_fields priv_setHeaders_fields comp_def split: option.splits)

text \<open>
  C9. \<open>setOpts\<close> hands the options object back without the keys \<open>headers\<close>, \<open>callbacks\<close>
  and \<open>data\<close>, each of which it has applied when it was there (the headers with the
  column defaults, the callbacks merged into the registered ones, the data loaded as
  fresh records), and with its other keys untouched. Passing the object as it now is to
  \<open>setOpts\<close> again changes neither the headers, the callbacks, the sequence of row
  records nor the heap of records; only the remaining keys are merged into the
  configuration.
\<close>

theorem setOpts_consumes_its_keys:
  "fst (setOpts S lw opts w) = opts\<lparr>o_headers := None, o_callbacks := None, o_data := None\<rparr>
   \<and> t_headers (state_of (snd (setOpts S lw opts w)))
       = (case o_headers opts of None \<Rightarrow> t_headers w
          | Some hs \<Rightarrow> Some (map (extend_column (DEFAULT_COLUMN_CONFIG S)) hs))
   \<and> t_callbacks (state_of (snd (setOpts S lw opts w)))
       = (case o_callbacks opts of None \<Rightarrow> t_callbacks w
          | Some cbs \<Rightarrow> jq_extend_props (jq_extend_props [] (t_callbacks w)) cbs)
   \<and> map e_data (entries (state_of (snd (setOpts S lw opts w))))
       = (case o_data opts of None \<Rightarrow> map e_data (entries w)
          | Some d \<Rightarrow> map (\<lambda>k. length (objs w) + k) [0..<length d])
   \<and> fst (setOpts S lw (fst (setOpts S lw opts w)) (state_of (snd (setOpts S lw opts w))))
       = fst (setOpts S lw opts w)
   \<and> t_headers (state_of (snd (setOpts S lw (fst (setOpts S lw opts w))
                                  (state_of (snd (setOpts S lw opts w))))))
       = t_headers (state_of (snd (setOpts S lw opts w)))
   \<and> t_callbacks (state_of (snd (setOpts S lw (fst (setOpts S lw opts w))
                                    (state_of (snd (setOpts S lw opts w))))))
       = t_callbacks (state_of (snd (setOpts S lw opts w)))
   \<and> map e_data (entries (state_of (snd (setOpts S lw (fst (setOpts S lw opts w))
                                            (state_of (snd (setOpts S lw opts w)))))))
       = map e_data (entries (state_of (snd (setOpts S lw opts w))))
   \<and> objs (state_of (snd (setOpts S lw (fst (setOpts S lw opts w))
                             (state_of (snd (setOpts S lw opts w))))))
       = objs (state_of (snd (setOpts S lw opts w)))
   \<and> t_config (state_of (snd (setOpts S lw (fst (setOpts S lw opts w))
                                 (state_of (snd (setOpts S lw opts w))))))
       = jq_extend (t_config (state_of (snd (setOpts S lw opts w)))) (o_config opts)"
proof -
  let ?opts' = "fst (setOpts S lw opts w)"
  let ?w1 = "state_of (snd (setOpts S lw opts w))"
  have o: "?opts' = opts\<lparr>o_headers := None, o_callbacks := None, o_data := None\<rparr>"
    by (rule setOpts_opts)
  then have k: "o_headers ?opts' = None" "o_callbacks ?opts' = None" "o_data ?opts' = None"
    and c: "o_config ?opts' = o_config opts"
    by simp_all
  note again = setOpts_without_keys [OF k, of S lw ?w1]
  show ?thesis
    using o again setOpts_applies [of S lw opts w] unfolding c by simp
qed

subsection \<open>Row events\<close>














subsection \<open>A table with two rows\<close>











subsection \<open>Sorting with a comparator\<close>

















subsection \<open>Sorting on a column\<close>







lemma records_of_update:
  "records_of (w\<lparr>t_headerTable := x\<rparr>) = records_of w"
  "records_of (w\<lparr>t_data := Some es\<rparr>) = map e_data es"
  by (simp_all add: records_of_def entries_update)




















end
